theory Spec2Isabelle
  imports Complex_Main
begin

section \<open>Electricity distribution loss simulator\<close>

text \<open>
  A shallow embedding of \<^verbatim>\<open>backend/distribution/models.py\<close> (the reading and alert
  models, with the recomputation of derived fields in \<^verbatim>\<open>ElectricityReading.save\<close>) and
  of \<^verbatim>\<open>backend/distribution/simulator.py\<close> (scenario selection, synthesis of a
  reading, alert creation and the two batch drivers).

  Numbers. The model fields are Django \<^verbatim>\<open>DecimalField\<close>s, whose values in memory are
  Python \<^verbatim>\<open>decimal.Decimal\<close>s. A \<^verbatim>\<open>Decimal\<close> is modelled by its numeric value, a
  rational, and every arithmetic operation rounds its exact result to the 28 significant
  digits of Python's default context, half to even (\<open>dec_round\<close>). Special values
  (NaN, infinities, signed zero) and the exponent limits are not modelled.

  The synthesizer, and the loss estimate of an alert, compute in binary floating point;
  there the model computes with exact rationals. The properties below are proved for
  every value the draws may take and none of them states the value of such a
  computation; the concrete runs take every draw in the middle of its range, far from
  any threshold that a rounding error could cross.
\<close>

subsection \<open>Python's \<^verbatim>\<open>Decimal\<close> arithmetic\<close>

definition pow10 :: "int \<Rightarrow> rat" where
  "pow10 k = (if 0 \<le> k then 10 ^ nat k else 1 / 10 ^ nat (- k))"

definition round_half_even :: "rat \<Rightarrow> int" where
  "round_half_even q =
     (let f = \<lfloor>q\<rfloor>; d = q - of_int f
      in if d < 1 / 2 then f
         else if 1 / 2 < d then f + 1
         else if even f then f else f + 1)"

fun digits10 :: "nat \<Rightarrow> nat" where
  "digits10 n = (if n < 10 then 1 else Suc (digits10 (n div 10)))"

declare digits10.simps [simp del]

text \<open>
  \<open>adjusted x\<close> is the exponent of the leading digit of a non-zero \<open>x\<close>
  (\<^verbatim>\<open>Decimal.adjusted()\<close>): the \<open>k\<close> with \<open>10^k \<le> |x| < 10^(k+1)\<close>. The digit counts of
  numerator and denominator fix it up to one, and a comparison decides.
\<close>

definition adjusted :: "rat \<Rightarrow> int" where
  "adjusted x =
     (let (n, d) = quotient_of \<bar>x\<bar>;
          k = int (digits10 (nat n)) - int (digits10 (nat d))
      in if pow10 k \<le> \<bar>x\<bar> then k else k - 1)"

definition prec :: int where
  "prec = 28"

definition dec_round :: "rat \<Rightarrow> rat" where
  "dec_round x =
     (if x = 0 then 0
      else let e = adjusted x - (prec - 1)
           in sgn x * of_int (round_half_even (\<bar>x\<bar> / pow10 e)) * pow10 e)"

definition dec_sub :: "rat \<Rightarrow> rat \<Rightarrow> rat" where
  "dec_sub a b = dec_round (a - b)"

definition dec_mul :: "rat \<Rightarrow> rat \<Rightarrow> rat" where
  "dec_mul a b = dec_round (a * b)"

text \<open>
  Division by a zero \<^verbatim>\<open>Decimal\<close> raises in Python. Both calls in the source are
  guarded by \<^verbatim>\<open>> 0\<close> on the divisor, and the model keeps the guards, so \<open>dec_div\<close> is
  only ever applied to a positive divisor.
\<close>

definition dec_div :: "rat \<Rightarrow> rat \<Rightarrow> rat" where
  "dec_div a b = dec_round (a / b)"

subsection \<open>Data model\<close>

datatype reading_status =
  NORMAL | LOW_VOLTAGE | HIGH_VOLTAGE | LOSS_DETECTED | THEFT_SUSPECTED | EQUIPMENT_FAULT

datatype connection_status =
  CS_ACTIVE | CS_DISCONNECTED | CS_SUSPENDED | CS_PENDING

datatype alert_severity = INFO | WARNING | CRITICAL | EMERGENCY

datatype alert_type =
  AT_VOLTAGE_DROP | AT_POWER_LOSS | AT_THEFT_SUSPECTED | AT_EQUIPMENT_FAULT
  | AT_OVERLOAD | AT_LINE_FAULT

datatype alert_status =
  AS_ACTIVE | AS_ACKNOWLEDGED | AS_INVESTIGATING | AS_RESOLVED | AS_FALSE_ALARM

text \<open>
  A transformer row as the simulator reads it. Foreign keys are primary keys of the
  referenced rows; \<open>houses_count\<close> is the result of the query
  \<^verbatim>\<open>transformer.houses.count()\<close>.
\<close>

record transformer =
  transformer_pk :: nat
  output_voltage :: rat
  houses_count :: nat
  village :: nat
  district :: nat
  company :: nat

record house =
  house_pk :: nat
  h_transformer :: transformer
  connected_load_kw :: rat
  connection_status :: connection_status
  is_active :: bool

record reading =
  reading_pk :: nat
  house :: house
  transformer :: transformer
  voltage_sent :: rat
  voltage_received :: rat
  voltage_loss :: rat
  voltage_loss_percentage :: rat
  current_sent :: rat
  current_received :: rat
  power_sent_kw :: rat
  power_received_kw :: rat
  power_loss_kw :: rat
  power_loss_percentage :: rat
  energy_sent_kwh :: rat
  energy_received_kwh :: rat
  energy_loss_kwh :: rat
  power_factor :: rat
  frequency :: rat
  line_distance_meters :: rat
  status :: reading_status
  is_anomaly :: bool
  reading_timestamp :: int

subsection \<open>\<^verbatim>\<open>ElectricityReading.save\<close> and \<^verbatim>\<open>_update_status\<close>\<close>

definition NORMAL_LOSS_THRESHOLD :: rat where
  "NORMAL_LOSS_THRESHOLD = 5"

definition THEFT_THRESHOLD :: rat where
  "THEFT_THRESHOLD = 15"

definition LOW_VOLTAGE_THRESHOLD :: rat where
  "LOW_VOLTAGE_THRESHOLD = 207"

definition HIGH_VOLTAGE_THRESHOLD :: rat where
  "HIGH_VOLTAGE_THRESHOLD = 253"

definition update_status :: "reading \<Rightarrow> reading" where
  "update_status self =
     (if voltage_received self < LOW_VOLTAGE_THRESHOLD
        then self\<lparr>status := LOW_VOLTAGE, is_anomaly := True\<rparr>
      else if voltage_received self > HIGH_VOLTAGE_THRESHOLD
        then self\<lparr>status := HIGH_VOLTAGE, is_anomaly := True\<rparr>
      else if power_loss_percentage self > THEFT_THRESHOLD
        then self\<lparr>status := THEFT_SUSPECTED, is_anomaly := True\<rparr>
      else if power_loss_percentage self > NORMAL_LOSS_THRESHOLD
        then self\<lparr>status := LOSS_DETECTED, is_anomaly := True\<rparr>
      else self\<lparr>status := NORMAL, is_anomaly := False\<rparr>)"

text \<open>
  The effect of \<^verbatim>\<open>save\<close> on the object. \<open>calculate_losses\<close> is the block
  under the comment \<^verbatim>\<open># Calculate losses\<close>: the loss fields are assigned in the
  source's order, each percentage only under its guard. Then the status is derived. The
  row write \<^verbatim>\<open>super().save()\<close> that ends the method is \<open>insert_reading\<close> further
  down.
\<close>

definition calculate_losses :: "reading \<Rightarrow> reading" where
  "calculate_losses self =
     (let self = self\<lparr>voltage_loss := dec_sub (voltage_sent self) (voltage_received self)\<rparr>;
          self = (if voltage_sent self > 0
                  then self\<lparr>voltage_loss_percentage :=
                         dec_mul (dec_div (voltage_loss self) (voltage_sent self)) 100\<rparr>
                  else self);
          self = self\<lparr>power_loss_kw := dec_sub (power_sent_kw self) (power_received_kw self)\<rparr>;
          self = (if power_sent_kw self > 0
                  then self\<lparr>power_loss_percentage :=
                         dec_mul (dec_div (power_loss_kw self) (power_sent_kw self)) 100\<rparr>
                  else self);
          self = self\<lparr>energy_loss_kwh :=
                         dec_sub (energy_sent_kwh self) (energy_received_kwh self)\<rparr>
      in self)"

definition save :: "reading \<Rightarrow> reading" where
  "save self = update_status (calculate_losses self)"

text \<open>
  A reading object built from the raw fields alone, as
  \<^verbatim>\<open>ElectricityReading.objects.create\<close> is called by the simulator: every field that is
  not passed takes the default the model class declares.
\<close>

definition new_reading ::
  "nat \<Rightarrow> house \<Rightarrow> transformer \<Rightarrow> rat \<Rightarrow> rat \<Rightarrow> rat \<Rightarrow> rat \<Rightarrow> rat \<Rightarrow> rat \<Rightarrow> rat \<Rightarrow> rat
     \<Rightarrow> rat \<Rightarrow> rat \<Rightarrow> rat \<Rightarrow> int \<Rightarrow> reading" where
  "new_reading pk h t vs vr cs cr ps pr es er pf fr dst ts =
     \<lparr>reading_pk = pk, house = h, transformer = t,
      voltage_sent = vs, voltage_received = vr,
      voltage_loss = 0, voltage_loss_percentage = 0,
      current_sent = cs, current_received = cr,
      power_sent_kw = ps, power_received_kw = pr,
      power_loss_kw = 0, power_loss_percentage = 0,
      energy_sent_kwh = es, energy_received_kwh = er, energy_loss_kwh = 0,
      power_factor = pf, frequency = fr, line_distance_meters = dst,
      status = NORMAL, is_anomaly = False, reading_timestamp = ts\<rparr>"

subsection \<open>The simulator's surroundings\<close>

text \<open>
  What the source takes from its surroundings is an explicit input of the model, indexed
  by the tick, the number of the \<^verbatim>\<open>create_reading\<close> call:
  the random draws of the tick, the clock, and whether the row write of the reading or
  the creation of the alert (rendering its title and description, then writing its row)
  raises. A draw behind \<^verbatim>\<open>random.uniform(a, b)\<close> is the underlying
  \<^verbatim>\<open>random.random()\<close> value \<open>u\<close>, and the call returns \<open>a + (b - a) * u\<close>.
\<close>

datatype error = ZeroDivisionError | ReadingInsertError | AlertCreationError

record draws =
  d_random :: rat
  d_randint :: int
  d_uniform1 :: rat
  d_uniform2 :: rat
  d_uniform3 :: rat
  d_power_factor :: rat
  d_frequency :: rat

record env =
  draws_at :: "nat \<Rightarrow> draws"
  now_at :: "nat \<Rightarrow> int"
  reading_insert_fails :: "nat \<Rightarrow> bool"
  alert_creation_fails :: "nat \<Rightarrow> bool"

definition uniform :: "rat \<Rightarrow> rat \<Rightarrow> rat \<Rightarrow> rat" where
  "uniform a b u = a + (b - a) * u"

text \<open>\<^verbatim>\<open>round(x, n)\<close> followed by \<^verbatim>\<open>Decimal(str(...))\<close>.\<close>

definition round_to :: "nat \<Rightarrow> rat \<Rightarrow> rat" where
  "round_to n x = of_int (round_half_even (x * 10 ^ n)) / 10 ^ n"

text \<open>Timestamps count microseconds; \<^verbatim>\<open>timedelta(hours=h)\<close> is \<open>timedelta_hours h\<close>.\<close>

definition timedelta_hours :: "int \<Rightarrow> int" where
  "timedelta_hours h = h * 3600000000"

subsection \<open>\<^verbatim>\<open>ElectricitySimulator\<close>: scenario selection\<close>

definition NORMAL_LOSS_MIN :: rat where
  "NORMAL_LOSS_MIN = 2 / 100"

definition NORMAL_LOSS_MAX :: rat where
  "NORMAL_LOSS_MAX = 5 / 100"

text \<open>The dictionary \<^verbatim>\<open>SCENARIOS\<close>, in its insertion order, which is the order of iteration.\<close>

definition SCENARIOS :: "(string \<times> rat) list" where
  "SCENARIOS =
     [(''normal'', 70 / 100),
      (''low_voltage'', 8 / 100),
      (''high_loss'', 10 / 100),
      (''theft'', 5 / 100),
      (''equipment_fault'', 4 / 100),
      (''line_fault'', 3 / 100)]"

text \<open>
  The loop of \<^verbatim>\<open>_select_scenario\<close> over the items of a table, with the running
  \<^verbatim>\<open>cumulative\<close> as an argument. It uses nothing of the numbers but their addition
  and their order.
\<close>

fun select_loop :: "(string \<times> 'a::{plus,ord}) list \<Rightarrow> 'a \<Rightarrow> 'a \<Rightarrow> string" where
  "select_loop [] cumulative rand = ''normal''"
| "select_loop ((scenario, probability) # rest) cumulative rand =
     (let cumulative = cumulative + probability
      in if rand \<le> cumulative then scenario else select_loop rest cumulative rand)"

definition select_scenario :: "rat \<Rightarrow> string" where
  "select_scenario rand = select_loop SCENARIOS 0 rand"

text \<open>
  The selection as the specification words it: the cumulative sums of the table, and the
  first scenario whose cumulative sum is at least the draw, \<^verbatim>\<open>normal\<close> if there is
  none.
\<close>

fun cumulative_sums :: "'a::plus \<Rightarrow> 'a list \<Rightarrow> 'a list" where
  "cumulative_sums c [] = []"
| "cumulative_sums c (p # ps) = (c + p) # cumulative_sums (c + p) ps"

definition first_cumulative_ge :: "(string \<times> 'a::{zero,plus,ord}) list \<Rightarrow> 'a \<Rightarrow> string" where
  "first_cumulative_ge table rand =
     (case find (\<lambda>(scenario, c). rand \<le> c)
             (zip (map fst table) (cumulative_sums 0 (map snd table))) of
        None \<Rightarrow> ''normal''
      | Some (scenario, c) \<Rightarrow> scenario)"

subsection \<open>\<^verbatim>\<open>ElectricitySimulator\<close>: synthesis of a reading\<close>

record reading_data =
  rd_house :: house
  rd_transformer :: transformer
  rd_voltage_sent :: rat
  rd_voltage_received :: rat
  rd_current_sent :: rat
  rd_current_received :: rat
  rd_power_sent_kw :: rat
  rd_power_received_kw :: rat
  rd_energy_sent_kwh :: rat
  rd_energy_received_kwh :: rat
  rd_power_factor :: rat
  rd_frequency :: rat
  rd_line_distance_meters :: rat
  rd_scenario :: string
  rd_expected_status :: reading_status

text \<open>
  The branch of \<^verbatim>\<open>_apply_scenario\<close> on the scenario: received voltage, received
  current and the expected status.
\<close>

definition scenario_values ::
  "draws \<Rightarrow> string \<Rightarrow> rat \<Rightarrow> rat \<Rightarrow> rat \<Rightarrow> rat \<times> rat \<times> reading_status" where
  "scenario_values d scenario v_sent base_current distance_loss_factor =
     (if scenario = ''normal'' then
        (let loss_pct = uniform NORMAL_LOSS_MIN NORMAL_LOSS_MAX (d_uniform1 d)
         in (v_sent * (1 - loss_pct * (3 / 10)),
             base_current * (1 - loss_pct * (1 / 10)), NORMAL))
      else if scenario = ''low_voltage'' then
        (let loss_pct = uniform (10 / 100) (15 / 100) (d_uniform1 d)
         in (v_sent * (1 - loss_pct), base_current * (105 / 100), LOW_VOLTAGE))
      else if scenario = ''high_loss'' then
        (let loss_pct = uniform (8 / 100) (14 / 100) (d_uniform1 d)
         in (v_sent * (1 - loss_pct * (4 / 10)),
             base_current * (1 - loss_pct * (6 / 10)), LOSS_DETECTED))
      else if scenario = ''theft'' then
        (let loss_pct = uniform (15 / 100) (35 / 100) (d_uniform1 d)
         in (v_sent * (1 - uniform (2 / 100) (5 / 100) (d_uniform2 d)),
             base_current * (1 - loss_pct), THEFT_SUSPECTED))
      else if scenario = ''equipment_fault'' then
        (v_sent * uniform (85 / 100) (105 / 100) (d_uniform2 d),
         base_current * uniform (7 / 10) (12 / 10) (d_uniform3 d), EQUIPMENT_FAULT)
      else if scenario = ''line_fault'' then
        (let loss_pct = uniform (10 / 100) (25 / 100) (d_uniform1 d) * distance_loss_factor
         in (v_sent * (1 - loss_pct * (6 / 10)),
             base_current * (1 - loss_pct * (4 / 10)), LOSS_DETECTED))
      else
        (let loss_pct = uniform NORMAL_LOSS_MIN NORMAL_LOSS_MAX (d_uniform1 d)
         in (v_sent * (1 - loss_pct * (3 / 10)),
             base_current * (1 - loss_pct * (1 / 10)), NORMAL)))"

definition apply_scenario :: "draws \<Rightarrow> string \<Rightarrow> rat \<Rightarrow> rat \<Rightarrow> house \<Rightarrow> reading_data" where
  "apply_scenario d scenario v_sent base_current hs =
     (let distance = of_nat (houses_count (h_transformer hs)) * 50 + of_int (d_randint d);
          distance_loss_factor = 1 + distance / 10000;
          (voltage_received, current_received, expected) =
            scenario_values d scenario v_sent base_current distance_loss_factor;
          pf = uniform (85 / 100) (98 / 100) (d_power_factor d);
          power_sent = v_sent * base_current * pf / 1000;
          power_received = voltage_received * current_received * pf / 1000;
          energy_sent = power_sent;
          energy_received = power_received
      in \<lparr>rd_house = hs,
          rd_transformer = h_transformer hs,
          rd_voltage_sent = round_to 2 v_sent,
          rd_voltage_received = round_to 2 voltage_received,
          rd_current_sent = round_to 2 base_current,
          rd_current_received = round_to 2 current_received,
          rd_power_sent_kw = round_to 3 power_sent,
          rd_power_received_kw = round_to 3 power_received,
          rd_energy_sent_kwh = round_to 3 energy_sent,
          rd_energy_received_kwh = round_to 3 energy_received,
          rd_power_factor = round_to 2 pf,
          rd_frequency = round_to 2 (uniform (498 / 10) (502 / 10) (d_frequency d)),
          rd_line_distance_meters = round_to 2 distance,
          rd_scenario = scenario,
          rd_expected_status = expected\<rparr>)"

text \<open>
  \<^verbatim>\<open>generate_reading\<close>. The division by \<^verbatim>\<open>voltage_sent\<close> is a float division, which
  raises \<^verbatim>\<open>ZeroDivisionError\<close> on a zero divisor; nothing in the method checks the
  divisor first.
\<close>

definition generate_reading :: "env \<Rightarrow> nat \<Rightarrow> house \<Rightarrow> string option \<Rightarrow> error + reading_data" where
  "generate_reading e tick hs scenario =
     (let transformer = h_transformer hs;
          d = draws_at e tick;
          scenario = (case scenario of None \<Rightarrow> select_scenario (d_random d) | Some s \<Rightarrow> s);
          voltage_sent = output_voltage transformer
      in if voltage_sent = 0 then Inl ZeroDivisionError
         else (let base_current = connected_load_kw hs * 1000 / voltage_sent
               in Inr (apply_scenario d scenario voltage_sent base_current hs)))"

subsection \<open>The store, and the creation of readings and alerts\<close>

record loss_alert =
  alert_reading :: nat
  alert_house :: nat
  alert_transformer :: nat
  alert_village :: nat
  alert_district :: nat
  alert_type :: alert_type
  severity :: alert_severity
  alert_status :: alert_status
  alert_voltage_loss :: rat
  alert_voltage_loss_percentage :: rat
  alert_power_loss_kw :: rat
  alert_power_loss_percentage :: rat
  estimated_financial_loss :: rat

text \<open>
  The tables the simulator reads and writes. The rows of \<open>readings\<close> and \<open>alerts\<close>
  are the objects as they were written; the rounding of a value to the decimal places of
  its column is the database's and is not modelled.
\<close>

record db =
  houses :: "house list"
  readings :: "reading list"
  alerts :: "loss_alert list"

text \<open>
  \<^verbatim>\<open>transaction.atomic\<close> around a function: when the function raises, the writes it
  made are rolled back and the exception goes on to the caller; when it returns, they
  are kept.
\<close>

definition atomic :: "(db \<Rightarrow> (error + 'a) \<times> db) \<Rightarrow> db \<Rightarrow> (error + 'a) \<times> db" where
  "atomic f s =
     (case f s of
        (Inl err, s') \<Rightarrow> (Inl err, s)
      | (Inr v, s') \<Rightarrow> (Inr v, s'))"

text \<open>
  \<^verbatim>\<open>ElectricityReading.objects.create\<close> with the raw fields: the object is built with
  the defaults of the class, \<^verbatim>\<open>save\<close> recomputes it, and its row is written. The
  primary key is a fresh \<^verbatim>\<open>uuid4\<close>; the model takes the tick, which differs from
  tick to tick.
\<close>

definition insert_reading :: "env \<Rightarrow> nat \<Rightarrow> reading \<Rightarrow> db \<Rightarrow> (error + reading) \<times> db" where
  "insert_reading e tick r s =
     (if reading_insert_fails e tick then (Inl ReadingInsertError, s)
      else (Inr r, s\<lparr>readings := readings s @ [r]\<rparr>))"

text \<open>The object \<^verbatim>\<open>create_reading\<close> passes to it, from the synthesized fields.\<close>

definition reading_from_data :: "nat \<Rightarrow> reading_data \<Rightarrow> int \<Rightarrow> reading" where
  "reading_from_data tick rd ts =
     new_reading tick (rd_house rd) (rd_transformer rd)
       (rd_voltage_sent rd) (rd_voltage_received rd)
       (rd_current_sent rd) (rd_current_received rd)
       (rd_power_sent_kw rd) (rd_power_received_kw rd)
       (rd_energy_sent_kwh rd) (rd_energy_received_kwh rd)
       (rd_power_factor rd) (rd_frequency rd) (rd_line_distance_meters rd) ts"

definition reading_objects_create ::
  "env \<Rightarrow> nat \<Rightarrow> reading_data \<Rightarrow> int \<Rightarrow> db \<Rightarrow> (error + reading) \<times> db" where
  "reading_objects_create e tick rd ts s =
     insert_reading e tick (save (reading_from_data tick rd ts)) s"

definition determine_alert_type :: "reading \<Rightarrow> alert_type \<times> alert_severity" where
  "determine_alert_type r =
     (let loss_pct = power_loss_percentage r
      in if status r = THEFT_SUSPECTED \<or> loss_pct > 15 then (AT_THEFT_SUSPECTED, CRITICAL)
         else if status r = LOW_VOLTAGE then (AT_VOLTAGE_DROP, WARNING)
         else if status r = HIGH_VOLTAGE then (AT_EQUIPMENT_FAULT, WARNING)
         else if status r = EQUIPMENT_FAULT then (AT_EQUIPMENT_FAULT, CRITICAL)
         else if loss_pct > 10 then (AT_POWER_LOSS, WARNING)
         else (AT_POWER_LOSS, INFO))"

definition rate_per_kwh :: rat where
  "rate_per_kwh = 750 / 100"

text \<open>
  \<^verbatim>\<open>_create_alert\<close>. The title and the description are rendered text and are not
  fields of the model's alert; that rendering them or writing the row raises is
  \<open>alert_creation_fails\<close>. The status of the new row is the default of the class.
  The source computes \<^verbatim>\<open>power_loss_daily\<close> as the float product
  \<^verbatim>\<open>float(reading.power_loss_kw) * 24\<close> and takes it back through
  \<^verbatim>\<open>Decimal(str(...))\<close>; the model takes the exact product.
\<close>

definition new_alert :: "reading \<Rightarrow> loss_alert" where
  "new_alert r =
     (let transformer = transformer r;
          (a_type, a_severity) = determine_alert_type r;
          power_loss_daily = power_loss_kw r * 24;
          estimated_loss = dec_mul (dec_mul power_loss_daily rate_per_kwh) 30
      in \<lparr>alert_reading = reading_pk r,
          alert_house = house_pk (house r),
          alert_transformer = transformer_pk transformer,
          alert_village = village transformer,
          alert_district = district transformer,
          alert_type = a_type,
          severity = a_severity,
          alert_status = AS_ACTIVE,
          alert_voltage_loss = voltage_loss r,
          alert_voltage_loss_percentage = voltage_loss_percentage r,
          alert_power_loss_kw = power_loss_kw r,
          alert_power_loss_percentage = power_loss_percentage r,
          estimated_financial_loss = estimated_loss\<rparr>)"

definition create_alert :: "env \<Rightarrow> nat \<Rightarrow> reading \<Rightarrow> db \<Rightarrow> (error + unit) \<times> db" where
  "create_alert e tick r s =
     (if alert_creation_fails e tick then (Inl AlertCreationError, s)
      else (Inr (), s\<lparr>alerts := alerts s @ [new_alert r]\<rparr>))"

text \<open>
  \<^verbatim>\<open>create_reading\<close>, decorated with \<^verbatim>\<open>@transaction.atomic\<close>: \<open>create_reading_body\<close> is
  the body of the method.
\<close>

definition create_reading_body ::
  "env \<Rightarrow> nat \<Rightarrow> house \<Rightarrow> string option \<Rightarrow> int option \<Rightarrow> db \<Rightarrow> (error + reading) \<times> db" where
  "create_reading_body e tick hs scenario timestamp s =
     (case generate_reading e tick hs scenario of
        Inl err \<Rightarrow> (Inl err, s)
      | Inr rd \<Rightarrow>
          (let ts = (case timestamp of None \<Rightarrow> now_at e tick | Some t \<Rightarrow> t)
           in case reading_objects_create e tick rd ts s of
                (Inl err, s1) \<Rightarrow> (Inl err, s1)
              | (Inr r, s1) \<Rightarrow>
                  if is_anomaly r
                  then (case create_alert e tick r s1 of
                          (Inl err, s2) \<Rightarrow> (Inl err, s2)
                        | (Inr u, s2) \<Rightarrow> (Inr r, s2))
                  else (Inr r, s1)))"

definition create_reading ::
  "env \<Rightarrow> nat \<Rightarrow> house \<Rightarrow> string option \<Rightarrow> int option \<Rightarrow> db \<Rightarrow> (error + reading) \<times> db" where
  "create_reading e tick hs scenario timestamp s =
     atomic (create_reading_body e tick hs scenario timestamp) s"

subsection \<open>The batch drivers\<close>

text \<open>
  The loop \<^verbatim>\<open>for house in houses\<close> of both drivers, appending to \<^verbatim>\<open>readings\<close>. A call
  that raises ends the loop, and the driver, with the exception: neither driver has a
  handler. Each call is one tick.
\<close>

fun houses_loop ::
  "env \<Rightarrow> nat \<Rightarrow> int option \<Rightarrow> house list \<Rightarrow> reading list \<Rightarrow> db
     \<Rightarrow> (error + reading list) \<times> db" where
  "houses_loop e tick timestamp [] acc s = (Inr acc, s)"
| "houses_loop e tick timestamp (hs # rest) acc s =
     (case create_reading e tick hs None timestamp s of
        (Inl err, s') \<Rightarrow> (Inl err, s')
      | (Inr r, s') \<Rightarrow> houses_loop e (Suc tick) timestamp rest (acc @ [r]) s')"

definition eligible_houses :: "db \<Rightarrow> house list" where
  "eligible_houses s =
     filter (\<lambda>hs. is_active hs \<and> connection_status hs = CS_ACTIVE) (houses s)"

definition simulate_all_houses ::
  "env \<Rightarrow> nat \<Rightarrow> nat option \<Rightarrow> nat option \<Rightarrow> nat option \<Rightarrow> transformer option \<Rightarrow> db
     \<Rightarrow> (error + reading list) \<times> db" where
  "simulate_all_houses e tick company_arg district_arg village_arg transformer_arg s =
     (let hss = eligible_houses s;
          hss =
            (case transformer_arg of
               Some t \<Rightarrow>
                 filter (\<lambda>hs. transformer_pk (h_transformer hs) = transformer_pk t) hss
             | None \<Rightarrow>
                 (case village_arg of
                    Some v \<Rightarrow> filter (\<lambda>hs. village (h_transformer hs) = v) hss
                  | None \<Rightarrow>
                      (case district_arg of
                         Some d \<Rightarrow> filter (\<lambda>hs. district (h_transformer hs) = d) hss
                       | None \<Rightarrow>
                           (case company_arg of
                              Some c \<Rightarrow> filter (\<lambda>hs. company (h_transformer hs) = c) hss
                            | None \<Rightarrow> hss))))
      in houses_loop e tick None hss [] s)"

text \<open>
  The loop \<^verbatim>\<open>for hour in range(hours)\<close> of \<^verbatim>\<open>simulate_historical_data\<close>, over the
  list of the hours still to run. An hour that does not raise has used one tick for each
  house.
\<close>

fun hours_loop ::
  "env \<Rightarrow> nat \<Rightarrow> int \<Rightarrow> int \<Rightarrow> int list \<Rightarrow> house list \<Rightarrow> reading list \<Rightarrow> db
     \<Rightarrow> (error + reading list) \<times> db" where
  "hours_loop e tick now hours [] hss acc s = (Inr acc, s)"
| "hours_loop e tick now hours (hour # rest) hss acc s =
     (let timestamp = now - timedelta_hours (hours - hour)
      in case houses_loop e tick (Some timestamp) hss acc s of
           (Inl err, s') \<Rightarrow> (Inl err, s')
         | (Inr acc', s') \<Rightarrow> hours_loop e (tick + length hss) now hours rest hss acc' s')"

text \<open>\<^verbatim>\<open>range(hours)\<close>: empty when \<open>hours\<close> is not positive.\<close>

definition py_range :: "int \<Rightarrow> int list" where
  "py_range n = map int [0..<nat n]"

definition simulate_historical_data ::
  "env \<Rightarrow> nat \<Rightarrow> int \<Rightarrow> house list option \<Rightarrow> db \<Rightarrow> (error + reading list) \<times> db" where
  "simulate_historical_data e tick hours houses_arg s =
     (let hss = (case houses_arg of None \<Rightarrow> eligible_houses s | Some l \<Rightarrow> l);
          now = now_at e tick
      in hours_loop e tick now hours (py_range hours) hss [] s)"

subsection \<open>Concrete rows and runs\<close>

definition example_transformer :: transformer where
  "example_transformer =
     \<lparr>transformer_pk = 1, output_voltage = 230, houses_count = 10,
      village = 1, district = 1, company = 1\<rparr>"

definition example_house :: house where
  "example_house =
     \<lparr>house_pk = 1, h_transformer = example_transformer, connected_load_kw = 2,
      connection_status = CS_ACTIVE, is_active = True\<rparr>"

text \<open>Received 220 V of 230 V sent, and 8 kW of 10 kW sent.\<close>

definition theft_reading :: reading where
  "theft_reading =
     new_reading 0 example_house example_transformer 230 220 10 8 10 8 10 8 (95 / 100) 50 100 0"

text \<open>
  The row of \<open>theft_reading\<close> as it was saved, with \<^verbatim>\<open>power_sent_kw\<close> then set to
  zero: the object a second \<^verbatim>\<open>save\<close> receives when the reading is updated.
\<close>

definition updated_reading :: reading where
  "updated_reading = (save theft_reading)\<lparr>power_sent_kw := 0\<rparr>"

text \<open>Received 240 V of 230 V sent, and 12 kW of 10 kW sent.\<close>

definition gain_reading :: reading where
  "gain_reading =
     new_reading 0 example_house example_transformer 230 240 10 12 10 12 10 12 (95 / 100) 50 100 0"

text \<open>A transformer whose output voltage is zero, one whose output voltage is negative.\<close>

definition unconfigured_transformer :: transformer where
  "unconfigured_transformer =
     \<lparr>transformer_pk = 2, output_voltage = 0, houses_count = 1,
      village = 1, district = 1, company = 1\<rparr>"

definition unconfigured_house :: house where
  "unconfigured_house =
     \<lparr>house_pk = 2, h_transformer = unconfigured_transformer, connected_load_kw = 2,
      connection_status = CS_ACTIVE, is_active = True\<rparr>"

definition reversed_transformer :: transformer where
  "reversed_transformer =
     \<lparr>transformer_pk = 3, output_voltage = - 230, houses_count = 1,
      village = 1, district = 1, company = 1\<rparr>"

definition reversed_house :: house where
  "reversed_house =
     \<lparr>house_pk = 3, h_transformer = reversed_transformer, connected_load_kw = 2,
      connection_status = CS_ACTIVE, is_active = True\<rparr>"

text \<open>
  Surroundings in which every draw is the middle of its range and nothing fails, and the
  same with every alert creation failing.
\<close>

definition example_draws :: draws where
  "example_draws =
     \<lparr>d_random = 1 / 2, d_randint = 60, d_uniform1 = 1 / 2, d_uniform2 = 1 / 2,
      d_uniform3 = 1 / 2, d_power_factor = 1 / 2, d_frequency = 1 / 2\<rparr>"

definition quiet_env :: env where
  "quiet_env =
     \<lparr>draws_at = (\<lambda>tick. example_draws), now_at = (\<lambda>tick. 1000000 + int tick),
      reading_insert_fails = (\<lambda>tick. False), alert_creation_fails = (\<lambda>tick. False)\<rparr>"

definition alert_failing_env :: env where
  "alert_failing_env = quiet_env\<lparr>alert_creation_fails := (\<lambda>tick. True)\<rparr>"

text \<open>A store with two eligible houses and no readings or alerts yet.\<close>

definition example_store :: db where
  "example_store = \<lparr>houses = [unconfigured_house, example_house], readings = [], alerts = []\<rparr>"

text \<open>What \<^verbatim>\<open>generate_reading\<close> returns for the example house in the low voltage scenario.\<close>

definition low_voltage_data :: reading_data where
  "low_voltage_data =
     apply_scenario example_draws ''low_voltage'' 230 (2 * 1000 / 230) example_house"

subsection \<open>Alerts of a reading\<close>

text \<open>The alerts of the store that reference a reading.\<close>

definition alerts_of :: "db \<Rightarrow> reading \<Rightarrow> loss_alert list" where
  "alerts_of s r = filter (\<lambda>a. alert_reading a = reading_pk r) (alerts s)"

text \<open>
  A store whose rows were made before tick \<open>tick\<close>: their keys are below it, every
  reading has one alert if it is an anomaly and none if it is not, and every alert is
  active.
\<close>

definition store_consistent :: "nat \<Rightarrow> db \<Rightarrow> bool" where
  "store_consistent tick s \<longleftrightarrow>
     (\<forall>r \<in> set (readings s). reading_pk r < tick) \<and>
     (\<forall>a \<in> set (alerts s). alert_reading a < tick \<and> alert_status a = AS_ACTIVE) \<and>
     (\<forall>r \<in> set (readings s). length (alerts_of s r) = (if is_anomaly r then 1 else 0))"

section \<open>Properties\<close>

subsection \<open>Rounding keeps the sign\<close>

lemma pow10_pos: "0 < pow10 k"
  by (simp add: pow10_def)

lemma round_half_even_nonneg: "0 \<le> q \<Longrightarrow> 0 \<le> round_half_even q"
  by (simp add: round_half_even_def Let_def)

lemma dec_round_nonpos: "x \<le> 0 \<Longrightarrow> dec_round x \<le> 0"
proof (cases "x = 0")
  case True
  then show ?thesis by (simp add: dec_round_def)
next
  case False
  assume "x \<le> 0"
  with False have neg: "x < 0" by simp
  define e where "e = adjusted x - (prec - 1)"
  have "0 \<le> (of_int (round_half_even (\<bar>x\<bar> / pow10 e)) :: rat)"
    using pow10_pos [of e] round_half_even_nonneg [of "\<bar>x\<bar> / pow10 e"] by simp
  then have "0 \<le> of_int (round_half_even (\<bar>x\<bar> / pow10 e)) * pow10 e"
    using pow10_pos [of e] by (simp add: less_imp_le)
  moreover have "dec_round x = - (of_int (round_half_even (\<bar>x\<bar> / pow10 e)) * pow10 e)"
    using neg False by (simp add: dec_round_def Let_def e_def)
  ultimately show ?thesis by simp
qed

lemma power_gain_percentage:
  assumes "0 < ps" "ps < pr"
  shows "dec_mul (dec_div (dec_sub ps pr) ps) 100 \<le> 0"
proof -
  have "dec_sub ps pr \<le> 0"
    using assms by (simp add: dec_sub_def dec_round_nonpos)
  then have "dec_sub ps pr / ps \<le> 0"
    using assms by (simp add: divide_le_0_iff)
  then have "dec_div (dec_sub ps pr) ps \<le> 0"
    by (simp add: dec_div_def dec_round_nonpos)
  then have "dec_div (dec_sub ps pr) ps * 100 \<le> 0"
    by simp
  then show ?thesis
    by (simp only: dec_mul_def dec_round_nonpos)
qed

lemma dec_examples:
  "dec_sub 10 8 = 2"
  "dec_sub 230 220 = 10"
  "dec_sub 10 12 = - 2"
  "dec_sub 0 8 = - 8"
  "dec_mul (dec_div 2 10) 100 = 20"
  "dec_mul (dec_div (- 2) 10) 100 = - 20"
  by code_simp+

subsection \<open>The fields after \<^verbatim>\<open>save\<close>\<close>

lemma update_status_result:
  "(status (update_status r), is_anomaly (update_status r)) =
     (if voltage_received r < 207 then (LOW_VOLTAGE, True)
      else if voltage_received r > 253 then (HIGH_VOLTAGE, True)
      else if power_loss_percentage r > 15 then (THEFT_SUSPECTED, True)
      else if power_loss_percentage r > 5 then (LOSS_DETECTED, True)
      else (NORMAL, False))"
  by (simp add: update_status_def LOW_VOLTAGE_THRESHOLD_def
      HIGH_VOLTAGE_THRESHOLD_def THEFT_THRESHOLD_def NORMAL_LOSS_THRESHOLD_def)

lemma update_status_fields [simp]:
  "reading_pk (update_status r) = reading_pk r"
  "house (update_status r) = house r"
  "transformer (update_status r) = transformer r"
  "voltage_sent (update_status r) = voltage_sent r"
  "voltage_received (update_status r) = voltage_received r"
  "voltage_loss (update_status r) = voltage_loss r"
  "voltage_loss_percentage (update_status r) = voltage_loss_percentage r"
  "power_sent_kw (update_status r) = power_sent_kw r"
  "power_received_kw (update_status r) = power_received_kw r"
  "power_loss_kw (update_status r) = power_loss_kw r"
  "power_loss_percentage (update_status r) = power_loss_percentage r"
  "energy_loss_kwh (update_status r) = energy_loss_kwh r"
  "reading_timestamp (update_status r) = reading_timestamp r"
  by (simp_all add: update_status_def)

lemma calculate_losses_raw [simp]:
  "reading_pk (calculate_losses r) = reading_pk r"
  "house (calculate_losses r) = house r"
  "transformer (calculate_losses r) = transformer r"
  "voltage_sent (calculate_losses r) = voltage_sent r"
  "voltage_received (calculate_losses r) = voltage_received r"
  "power_sent_kw (calculate_losses r) = power_sent_kw r"
  "power_received_kw (calculate_losses r) = power_received_kw r"
  "reading_timestamp (calculate_losses r) = reading_timestamp r"
  by (simp_all add: calculate_losses_def Let_def)

lemma calculate_losses_derived:
  "voltage_loss (calculate_losses r) = dec_sub (voltage_sent r) (voltage_received r)"
  "voltage_loss_percentage (calculate_losses r) =
     (if 0 < voltage_sent r
      then dec_mul (dec_div (dec_sub (voltage_sent r) (voltage_received r)) (voltage_sent r)) 100
      else voltage_loss_percentage r)"
  "power_loss_kw (calculate_losses r) = dec_sub (power_sent_kw r) (power_received_kw r)"
  "power_loss_percentage (calculate_losses r) =
     (if 0 < power_sent_kw r
      then dec_mul (dec_div (dec_sub (power_sent_kw r) (power_received_kw r)) (power_sent_kw r)) 100
      else power_loss_percentage r)"
  "energy_loss_kwh (calculate_losses r) = dec_sub (energy_sent_kwh r) (energy_received_kwh r)"
  by (simp_all add: calculate_losses_def Let_def)

lemma save_raw [simp]:
  "reading_pk (save r) = reading_pk r"
  "house (save r) = house r"
  "transformer (save r) = transformer r"
  "voltage_sent (save r) = voltage_sent r"
  "voltage_received (save r) = voltage_received r"
  "power_sent_kw (save r) = power_sent_kw r"
  "power_received_kw (save r) = power_received_kw r"
  "reading_timestamp (save r) = reading_timestamp r"
  by (simp_all add: save_def)

lemma save_power_loss_percentage:
  "power_loss_percentage (save r) =
     (if 0 < power_sent_kw r
      then dec_mul (dec_div (dec_sub (power_sent_kw r) (power_received_kw r)) (power_sent_kw r)) 100
      else power_loss_percentage r)"
  unfolding save_def update_status_fields calculate_losses_derived by (rule refl)

lemma save_result:
  "(status (save r), is_anomaly (save r)) =
     (if voltage_received r < 207 then (LOW_VOLTAGE, True)
      else if voltage_received r > 253 then (HIGH_VOLTAGE, True)
      else if power_loss_percentage (save r) > 15 then (THEFT_SUSPECTED, True)
      else if power_loss_percentage (save r) > 5 then (LOSS_DETECTED, True)
      else (NORMAL, False))"
  unfolding save_def update_status_result by simp

lemma theft_reading_raw:
  "voltage_sent theft_reading = 230" "voltage_received theft_reading = 220"
  "power_sent_kw theft_reading = 10" "power_received_kw theft_reading = 8"
  "energy_sent_kwh theft_reading = 10" "energy_received_kwh theft_reading = 8"
  by (simp_all add: theft_reading_def new_reading_def)

lemma theft_reading_percentage: "power_loss_percentage (save theft_reading) = 20"
  unfolding save_power_loss_percentage by (simp add: theft_reading_raw dec_examples)

lemma updated_reading_raw:
  "power_sent_kw updated_reading = 0" "power_received_kw updated_reading = 8"
  "power_loss_percentage updated_reading = 20" "voltage_received updated_reading = 220"
  by (simp_all add: updated_reading_def theft_reading_percentage theft_reading_raw)

lemma gain_reading_raw:
  "voltage_received gain_reading = 240"
  "power_sent_kw gain_reading = 10" "power_received_kw gain_reading = 12"
  by (simp_all add: gain_reading_def new_reading_def)

subsection \<open>Classification at persistence time\<close>








subsection \<open>Scenario selection\<close>

lemma select_loop_first_cumulative:
  "select_loop table c rand =
     (case find (\<lambda>(scenario, c'). rand \<le> c')
             (zip (map fst table) (cumulative_sums c (map snd table))) of
        None \<Rightarrow> ''normal''
      | Some (scenario, c') \<Rightarrow> scenario)"
  by (induction table arbitrary: c) (auto simp: Let_def)

lemma select_loop_label: "select_loop table c rand \<in> insert ''normal'' (set (map fst table))"
proof (induction table arbitrary: c)
  case Nil
  show ?case by simp
next
  case (Cons entry table)
  obtain scenario probability where entry: "entry = (scenario, probability)"
    by (cases entry)
  show ?case
    using Cons.IH [of "c + probability"] by (auto simp: entry Let_def)
qed

text \<open>
  C7. For every draw, \<^verbatim>\<open>_select_scenario\<close> returns what the specification words: the
  first scenario of the table, in its order normal, low voltage, high loss, theft,
  equipment fault, line fault with the probabilities 0.70, 0.08, 0.10, 0.05, 0.04, 0.03,
  whose cumulative probability is at least the draw, and \<^verbatim>\<open>normal\<close> when there is
  none. So the result is one of the six labels, and the probabilities of the table sum
  to 1. The probabilities are the decimal fractions the source writes; the agreement of
  the loop with the specification's wording (\<open>select_loop_first_cumulative\<close>) holds for
  any table and any numbers with an addition and an order.
\<close>

theorem select_scenario_walks_table:
  "select_scenario rand = first_cumulative_ge SCENARIOS rand \<and>
   select_scenario rand \<in> {''normal'', ''low_voltage'', ''high_loss'', ''theft'',
                              ''equipment_fault'', ''line_fault''} \<and>
   map fst SCENARIOS = [''normal'', ''low_voltage'', ''high_loss'', ''theft'',
                        ''equipment_fault'', ''line_fault''] \<and>
   map snd SCENARIOS = [70 / 100, 8 / 100, 10 / 100, 5 / 100, 4 / 100, 3 / 100] \<and>
   sum_list (map snd SCENARIOS) = 1"
proof -
  have "select_scenario rand = first_cumulative_ge SCENARIOS rand"
    by (simp only: select_scenario_def first_cumulative_ge_def select_loop_first_cumulative)
  moreover have labels: "map fst SCENARIOS = [''normal'', ''low_voltage'', ''high_loss'', ''theft'',
                        ''equipment_fault'', ''line_fault'']"
    by (simp add: SCENARIOS_def)
  moreover have "select_scenario rand \<in> {''normal'', ''low_voltage'', ''high_loss'', ''theft'',
                              ''equipment_fault'', ''line_fault''}"
    using select_loop_label [of SCENARIOS 0 rand] unfolding select_scenario_def labels by simp
  moreover have "map snd SCENARIOS = [70 / 100, 8 / 100, 10 / 100, 5 / 100, 4 / 100, 3 / 100]"
    by (simp add: SCENARIOS_def)
  moreover have "sum_list (map snd SCENARIOS) = 1"
    by (simp add: SCENARIOS_def)
  ultimately show ?thesis by blast
qed

theorem select_scenario_walks_table_witness:
  "select_scenario (75 / 100) = ''low_voltage'' \<and>
   first_cumulative_ge SCENARIOS (75 / 100) = ''low_voltage'' \<and>
   select_scenario (101 / 100) = ''normal''"
proof -
  have "first_cumulative_ge SCENARIOS (75 / 100) = ''low_voltage''"
    by (simp add: first_cumulative_ge_def SCENARIOS_def)
  moreover have "select_scenario (101 / 100) = ''normal''"
    by (simp add: select_scenario_def SCENARIOS_def)
  ultimately show ?thesis
    using select_scenario_walks_table [of "75 / 100"] by simp
qed
subsection \<open>One tick\<close>

lemma generate_reading_zero:
  "output_voltage (h_transformer hs) = 0 \<Longrightarrow> generate_reading e tick hs sc = Inl ZeroDivisionError"
  by (simp add: generate_reading_def Let_def)

lemma apply_scenario_refs [simp]:
  "rd_house (apply_scenario d sc vs bc hs) = hs"
  "rd_transformer (apply_scenario d sc vs bc hs) = h_transformer hs"
  "rd_scenario (apply_scenario d sc vs bc hs) = sc"
  by (simp_all add: apply_scenario_def Let_def split: prod.splits)

lemma generate_reading_ok:
  assumes "output_voltage (h_transformer hs) \<noteq> 0"
  shows "\<exists>rd. generate_reading e tick hs sc = Inr rd \<and> rd_house rd = hs \<and>
              rd_transformer rd = h_transformer hs"
  using assms by (simp add: generate_reading_def Let_def)

lemma generate_reading_Inr:
  assumes "generate_reading e tick hs sc = Inr rd"
  shows "output_voltage (h_transformer hs) \<noteq> 0 \<and> rd_house rd = hs \<and>
         rd_transformer rd = h_transformer hs"
  using assms by (auto simp: generate_reading_def Let_def split: if_splits)

lemma generate_reading_Inl:
  assumes "generate_reading e tick hs sc = Inl err"
  shows "err = ZeroDivisionError \<and> output_voltage (h_transformer hs) = 0"
  using assms by (auto simp: generate_reading_def Let_def split: if_splits)

lemma create_reading_eq:
  "create_reading e tick hs sc timestamp s =
     (case generate_reading e tick hs sc of
        Inl err \<Rightarrow> (Inl err, s)
      | Inr rd \<Rightarrow>
          (let r = save (reading_from_data tick rd
                       (case timestamp of None \<Rightarrow> now_at e tick | Some t \<Rightarrow> t))
           in if reading_insert_fails e tick then (Inl ReadingInsertError, s)
              else if is_anomaly r
                then (if alert_creation_fails e tick then (Inl AlertCreationError, s)
                      else (Inr r, s\<lparr>readings := readings s @ [r],
                                      alerts := alerts s @ [new_alert r]\<rparr>))
              else (Inr r, s\<lparr>readings := readings s @ [r]\<rparr>)))"
  by (simp add: create_reading_def atomic_def create_reading_body_def
      reading_objects_create_def insert_reading_def create_alert_def Let_def
      split: sum.splits)

lemma reading_from_data_fields [simp]:
  "reading_pk (reading_from_data tick rd ts) = tick"
  "house (reading_from_data tick rd ts) = rd_house rd"
  "transformer (reading_from_data tick rd ts) = rd_transformer rd"
  "reading_timestamp (reading_from_data tick rd ts) = ts"
  "power_loss_percentage (reading_from_data tick rd ts) = 0"
  by (simp_all add: reading_from_data_def new_reading_def)
subsection \<open>A failing alert creation\<close>

lemma low_voltage_data_generated:
  "generate_reading alert_failing_env 0 example_house (Some ''low_voltage'') = Inr low_voltage_data"
  by (simp add: generate_reading_def alert_failing_env_def quiet_env_def example_house_def
      example_transformer_def low_voltage_data_def Let_def)

lemma low_voltage_data_received: "rd_voltage_received low_voltage_data = 805 / 4"
  by (simp add: low_voltage_data_def apply_scenario_def scenario_values_def Let_def
      uniform_def example_draws_def round_to_def round_half_even_def)

lemma low_voltage_reading_anomaly:
  "is_anomaly (save (reading_from_data 0 low_voltage_data ts))"
proof -
  have "voltage_received (reading_from_data 0 low_voltage_data ts) = 805 / 4"
    by (simp add: reading_from_data_def new_reading_def low_voltage_data_received)
  then have "(status (save (reading_from_data 0 low_voltage_data ts)),
              is_anomaly (save (reading_from_data 0 low_voltage_data ts))) = (LOW_VOLTAGE, True)"
    unfolding save_result by simp
  then show ?thesis by simp
qed

lemma alert_failing_env_fields:
  "\<not> reading_insert_fails alert_failing_env tick" "alert_creation_fails alert_failing_env tick"
  by (simp_all add: alert_failing_env_def quiet_env_def)

text \<open>
  C3, as the claim states it, fails. The example house, in the low voltage scenario,
  gets a reading of 201.25 V received, an anomaly. When the creation of its alert fails,
  \<^verbatim>\<open>create_reading\<close> ends with that error and the store has no reading after the tick.
\<close>

theorem reading_lost_with_alert_counterexample:
  "fst (create_reading alert_failing_env 0 example_house (Some ''low_voltage'') None
          example_store) = Inl AlertCreationError \<and>
   readings (snd (create_reading alert_failing_env 0 example_house (Some ''low_voltage'') None
          example_store)) = []"
  unfolding create_reading_eq low_voltage_data_generated
  by (simp add: Let_def low_voltage_reading_anomaly alert_failing_env_fields example_store_def)

text \<open>
  C3, amended. When the creation of the alert fails for an anomalous reading, the error
  leaves \<^verbatim>\<open>create_reading\<close> and the insert of the reading is rolled back with it: the
  store after the tick is the store before it. The reading and its alert are written
  together or not at all.
\<close>

theorem alert_failure_rolls_back_reading:
  assumes "generate_reading e tick hs sc = Inr rd"
    and "\<not> reading_insert_fails e tick"
    and "is_anomaly (save (reading_from_data tick rd
           (case timestamp of None \<Rightarrow> now_at e tick | Some t \<Rightarrow> t)))"
    and "alert_creation_fails e tick"
  shows "create_reading e tick hs sc timestamp s = (Inl AlertCreationError, s)"
  unfolding create_reading_eq using assms by (simp add: Let_def)

theorem alert_failure_rolls_back_reading_witness:
  "create_reading alert_failing_env 0 example_house (Some ''low_voltage'') None example_store =
     (Inl AlertCreationError, example_store)"
  using alert_failure_rolls_back_reading [OF low_voltage_data_generated
      alert_failing_env_fields(1) low_voltage_reading_anomaly alert_failing_env_fields(2)]
  by simp

subsection \<open>A transformer without output voltage\<close>

lemma quiet_env_fields:
  "\<not> reading_insert_fails quiet_env tick" "\<not> alert_creation_fails quiet_env tick"
  by (simp_all add: quiet_env_def)

lemma unconfigured_house_fields:
  "output_voltage (h_transformer unconfigured_house) = 0"
  "is_active unconfigured_house" "connection_status unconfigured_house = CS_ACTIVE"
  by (simp_all add: unconfigured_house_def unconfigured_transformer_def)

lemma example_house_fields:
  "output_voltage (h_transformer example_house) = 230"
  "is_active example_house" "connection_status example_house = CS_ACTIVE"
  by (simp_all add: example_house_def example_transformer_def)

lemma create_reading_unconfigured:
  "create_reading e tick unconfigured_house sc timestamp s = (Inl ZeroDivisionError, s)"
  unfolding create_reading_eq
  by (simp add: generate_reading_zero unconfigured_house_fields)

lemma create_reading_not_rejected:
  assumes "output_voltage (h_transformer hs) \<noteq> 0"
  shows "\<not> isl (fst (create_reading quiet_env tick hs sc timestamp s))"
proof -
  obtain rd where "generate_reading quiet_env tick hs sc = Inr rd"
    using generate_reading_ok [OF assms] by blast
  then show ?thesis
    unfolding create_reading_eq by (simp add: Let_def quiet_env_fields)
qed

text \<open>
  C4: what the code does. For a house whose transformer has output voltage zero,
  \<^verbatim>\<open>generate_reading\<close> raises \<^verbatim>\<open>ZeroDivisionError\<close>, the error leaves
  \<^verbatim>\<open>create_reading\<close>, and \<^verbatim>\<open>simulate_all_houses\<close> over that house and a well configured
  one ends with the error, no reading made for either. For a negative output voltage the
  tick is not rejected.
\<close>

theorem zero_output_voltage_aborts_batch:
  "generate_reading quiet_env 0 unconfigured_house None = Inl ZeroDivisionError \<and>
   create_reading quiet_env 0 unconfigured_house None None example_store =
     (Inl ZeroDivisionError, example_store) \<and>
   eligible_houses example_store = [unconfigured_house, example_house] \<and>
   simulate_all_houses quiet_env 0 None None None None example_store =
     (Inl ZeroDivisionError, example_store) \<and>
   \<not> isl (fst (create_reading quiet_env 0 reversed_house None None example_store))"
proof -
  have eligible: "eligible_houses example_store = [unconfigured_house, example_house]"
    by (simp add: eligible_houses_def example_store_def unconfigured_house_fields
        example_house_fields)
  have "simulate_all_houses quiet_env 0 None None None None example_store =
     (Inl ZeroDivisionError, example_store)"
    by (simp add: simulate_all_houses_def eligible create_reading_unconfigured)
  moreover have "\<not> isl (fst (create_reading quiet_env 0 reversed_house None None example_store))"
    by (rule create_reading_not_rejected)
      (simp add: reversed_house_def reversed_transformer_def)
  ultimately show ?thesis
    by (simp add: generate_reading_zero unconfigured_house_fields create_reading_unconfigured
        eligible)
qed
subsection \<open>One alert for each anomalous reading\<close>

lemma new_alert_fields [simp]:
  "alert_reading (new_alert r) = reading_pk r"
  "alert_status (new_alert r) = AS_ACTIVE"
  "(alert_type (new_alert r), severity (new_alert r)) = determine_alert_type r"
  by (simp_all add: new_alert_def Let_def split: prod.splits)

lemma store_consistent_mono:
  "store_consistent tick s \<Longrightarrow> tick \<le> tick' \<Longrightarrow> store_consistent tick' s"
  by (fastforce simp: store_consistent_def)

lemma store_consistent_add:
  assumes "store_consistent tick s" and "reading_pk r = tick"
  shows "store_consistent (Suc tick)
           (s\<lparr>readings := readings s @ [r],
              alerts := alerts s @ (if is_anomaly r then [new_alert r] else [])\<rparr>)"
proof -
  have old: "\<And>a. a \<in> set (alerts s) \<Longrightarrow> alert_reading a \<noteq> tick"
    using assms(1) by (fastforce simp: store_consistent_def)
  then have none: "filter (\<lambda>a. alert_reading a = tick) (alerts s) = []"
    by (simp add: filter_empty_conv)
  have others: "\<And>r'. r' \<in> set (readings s) \<Longrightarrow> reading_pk r' \<noteq> tick"
    using assms(1) by (fastforce simp: store_consistent_def)
  show ?thesis
    using assms old others
    by (auto simp: store_consistent_def alerts_of_def none less_Suc_eq)
qed

lemma create_reading_consistent:
  assumes "store_consistent tick s"
    and "create_reading e tick hs sc timestamp s = (res, s')"
  shows "store_consistent (Suc tick) s'"
proof (cases res)
  case (Inl err)
  with assms(2) have "s' = s"
    unfolding create_reading_eq by (auto simp: Let_def split: sum.splits if_splits)
  with assms(1) show ?thesis
    by (simp add: store_consistent_mono)
next
  case (Inr r)
  with assms(2) have pk: "reading_pk r = tick"
    and s': "s' = s\<lparr>readings := readings s @ [r],
                    alerts := alerts s @ (if is_anomaly r then [new_alert r] else [])\<rparr>"
    unfolding create_reading_eq by (auto simp: Let_def split: sum.splits if_splits)
  show ?thesis
    unfolding s' using assms(1) pk by (rule store_consistent_add)
qed

lemma create_reading_Inr:
  assumes "create_reading e tick hs sc timestamp s = (Inr r, s')"
  shows "reading_pk r = tick \<and> house r = hs \<and>
         readings s' = readings s @ [r] \<and>
         alerts s' = alerts s @ (if is_anomaly r then [new_alert r] else []) \<and>
         houses s' = houses s \<and>
         (\<exists>rd. generate_reading e tick hs sc = Inr rd \<and>
               r = save (reading_from_data tick rd
                     (case timestamp of None \<Rightarrow> now_at e tick | Some t \<Rightarrow> t)))"
  using assms unfolding create_reading_eq
  by (auto simp: Let_def split: sum.splits if_splits dest: generate_reading_Inr)
lemma houses_loop_consistent:
  assumes "store_consistent tick s"
    and "houses_loop e tick ts hss acc s = (res, s')"
  shows "store_consistent (tick + length hss) s'"
  using assms
proof (induction hss arbitrary: tick acc s)
  case Nil
  then show ?case by simp
next
  case (Cons hs hss)
  obtain res1 s1 where step: "create_reading e tick hs None ts s = (res1, s1)"
    by (cases "create_reading e tick hs None ts s")
  have s1: "store_consistent (Suc tick) s1"
    using Cons.prems(1) step by (rule create_reading_consistent)
  show ?case
  proof (cases res1)
    case (Inl err)
    with Cons.prems(2) step have "s' = s1" by simp
    with s1 show ?thesis
      by (simp add: store_consistent_mono)
  next
    case (Inr r)
    with Cons.prems(2) step
    have "houses_loop e (Suc tick) ts hss (acc @ [r]) s1 = (res, s')" by simp
    with s1 have "store_consistent (Suc tick + length hss) s'"
      by (rule Cons.IH)
    then show ?thesis by simp
  qed
qed

lemma hours_loop_consistent:
  assumes "store_consistent tick s"
    and "hours_loop e tick now H hl hss acc s = (res, s')"
  shows "\<exists>tick'. store_consistent tick' s'"
  using assms
proof (induction hl arbitrary: tick acc s)
  case Nil
  then show ?case by auto
next
  case (Cons hour hl)
  let ?ts = "now - timedelta_hours (H - hour)"
  obtain res1 s1 where step: "houses_loop e tick (Some ?ts) hss acc s = (res1, s1)"
    by (cases "houses_loop e tick (Some ?ts) hss acc s")
  have s1: "store_consistent (tick + length hss) s1"
    using Cons.prems(1) step by (rule houses_loop_consistent)
  show ?case
  proof (cases res1)
    case (Inl err)
    with Cons.prems(2) step have "s' = s1" by (simp add: Let_def)
    with s1 show ?thesis by blast
  next
    case (Inr acc')
    with Cons.prems(2) step
    have "hours_loop e (tick + length hss) now H hl hss acc' s1 = (res, s')"
      by (simp add: Let_def)
    with s1 show ?thesis
      by (rule Cons.IH)
  qed
qed

lemma store_consistent_result:
  assumes "store_consistent tick s"
  shows "(\<forall>r \<in> set (readings s). length (alerts_of s r) = (if is_anomaly r then 1 else 0)) \<and>
         (\<forall>a \<in> set (alerts s). alert_status a = AS_ACTIVE)"
  using assms by (simp add: store_consistent_def)

lemma example_store_consistent: "store_consistent 0 example_store"
  by (simp add: store_consistent_def example_store_def)

text \<open>
  C6. Start from a store in which every reading has one alert if it is an anomaly and
  none if it is not, and every alert is active (an empty store is one). After a tick of
  \<^verbatim>\<open>create_reading\<close>, and after a run of either batch driver, whether it returned or
  raised, the store is again such a store. The reading a tick returns is in the store.
\<close>

theorem alerts_match_anomalies:
  assumes "store_consistent tick s"
    and "s' = snd (create_reading e tick hs sc timestamp s) \<or>
         s' = snd (simulate_all_houses e tick c d v t s) \<or>
         s' = snd (simulate_historical_data e tick H ho s)"
  shows "(\<forall>r \<in> set (readings s'). length (alerts_of s' r) = (if is_anomaly r then 1 else 0)) \<and>
         (\<forall>a \<in> set (alerts s'). alert_status a = AS_ACTIVE) \<and>
         (\<forall>r. fst (create_reading e tick hs sc timestamp s) = Inr r \<longrightarrow>
              r \<in> set (readings (snd (create_reading e tick hs sc timestamp s))))"
proof -
  have "\<exists>tick'. store_consistent tick' s'"
    using assms(2)
  proof (elim disjE)
    assume "s' = snd (create_reading e tick hs sc timestamp s)"
    then show ?thesis
      using create_reading_consistent [OF assms(1), of e hs sc timestamp]
      by (metis prod.collapse)
  next
    assume "s' = snd (simulate_all_houses e tick c d v t s)"
    then show ?thesis
      unfolding simulate_all_houses_def Let_def
      using houses_loop_consistent [OF assms(1)] by (metis prod.collapse)
  next
    assume "s' = snd (simulate_historical_data e tick H ho s)"
    then show ?thesis
      unfolding simulate_historical_data_def Let_def
      using hours_loop_consistent [OF assms(1)] by (metis prod.collapse)
  qed
  moreover have "\<forall>r. fst (create_reading e tick hs sc timestamp s) = Inr r \<longrightarrow>
              r \<in> set (readings (snd (create_reading e tick hs sc timestamp s)))"
    using create_reading_Inr [of e tick hs sc timestamp s]
    by (metis prod.collapse in_set_conv_decomp)
  ultimately show ?thesis
    using store_consistent_result by blast
qed

lemma low_voltage_data_generated_quiet:
  "generate_reading quiet_env 0 example_house (Some ''low_voltage'') = Inr low_voltage_data"
  by (simp add: generate_reading_def quiet_env_def example_house_def
      example_transformer_def low_voltage_data_def Let_def)

theorem alerts_match_anomalies_witness:
  "store_consistent 0 example_store \<and>
   length (readings (snd (create_reading quiet_env 0 example_house (Some ''low_voltage'') None
                            example_store))) = 1 \<and>
   length (alerts (snd (create_reading quiet_env 0 example_house (Some ''low_voltage'') None
                            example_store))) = 1 \<and>
   list_all (\<lambda>a. alert_status a = AS_ACTIVE)
     (alerts (snd (create_reading quiet_env 0 example_house (Some ''low_voltage'') None
                            example_store)))"
proof -
  have "length (readings (snd (create_reading quiet_env 0 example_house (Some ''low_voltage'')
                            None example_store))) = 1 \<and>
        length (alerts (snd (create_reading quiet_env 0 example_house (Some ''low_voltage'') None
                            example_store))) = 1"
    unfolding create_reading_eq low_voltage_data_generated_quiet
    by (simp add: Let_def low_voltage_reading_anomaly quiet_env_fields example_store_def)
  then show ?thesis
    using alerts_match_anomalies [OF example_store_consistent disjI1 [OF refl],
        of quiet_env example_house "Some ''low_voltage''" None]
    by (simp add: example_store_consistent list_all_iff)
qed

subsection \<open>The statuses that are assigned\<close>

lemma save_status:
  "status (save r) \<in> {NORMAL, LOW_VOLTAGE, HIGH_VOLTAGE, THEFT_SUSPECTED, LOSS_DETECTED}"
  using save_result [of r] by (auto split: if_splits)

lemma determine_alert_type_equipment_critical:
  assumes "status r \<noteq> EQUIPMENT_FAULT"
  shows "determine_alert_type r \<noteq> (AT_EQUIPMENT_FAULT, CRITICAL)"
  using assms by (simp add: determine_alert_type_def Let_def)

lemma equipment_fault_expected:
  "rd_expected_status (apply_scenario dr ''equipment_fault'' vs bc hs) = EQUIPMENT_FAULT"
  by (simp add: apply_scenario_def scenario_values_def Let_def)

lemma generate_equipment_fault_expected:
  assumes "generate_reading e tick hs (Some ''equipment_fault'') = Inr rd"
  shows "rd_expected_status rd = EQUIPMENT_FAULT"
  using assms
  by (auto simp: generate_reading_def Let_def equipment_fault_expected split: if_splits)

text \<open>
  C9. \<^verbatim>\<open>save\<close> only ever leaves one of the five statuses normal, low voltage, high
  voltage, theft suspected and loss detected, never equipment fault; so the alert type
  and severity derived from a saved reading are never the pair (equipment fault,
  critical) of the branch on that status. The equipment fault scenario puts
  \<^verbatim>\<open>equipment_fault\<close> into the expected status of the synthesized data only. For a tick
  of \<^verbatim>\<open>create_reading\<close> that returns a reading: its status is one of the five, and the
  alert it created, if any, is not an (equipment fault, critical) one.
\<close>

theorem equipment_fault_never_assigned:
  "status (save r) \<in> {NORMAL, LOW_VOLTAGE, HIGH_VOLTAGE, THEFT_SUSPECTED, LOSS_DETECTED} \<and>
   determine_alert_type (save r) \<noteq> (AT_EQUIPMENT_FAULT, CRITICAL) \<and>
   rd_expected_status (apply_scenario dr ''equipment_fault'' vs bc hs) = EQUIPMENT_FAULT \<and>
   (generate_reading e tick hs (Some ''equipment_fault'') = Inr rd \<longrightarrow>
      rd_expected_status rd = EQUIPMENT_FAULT) \<and>
   (create_reading e tick hs sc timestamp s = (Inr r', s') \<longrightarrow>
      status r' \<in> {NORMAL, LOW_VOLTAGE, HIGH_VOLTAGE, THEFT_SUSPECTED, LOSS_DETECTED} \<and>
      alerts s' = alerts s @ (if is_anomaly r' then [new_alert r'] else []) \<and>
      (alert_type (new_alert r'), severity (new_alert r')) \<noteq> (AT_EQUIPMENT_FAULT, CRITICAL))"
proof -
  have saved: "status (save r) \<noteq> EQUIPMENT_FAULT" for r
    using save_status [of r] by auto
  have "status r' \<in> {NORMAL, LOW_VOLTAGE, HIGH_VOLTAGE, THEFT_SUSPECTED, LOSS_DETECTED} \<and>
      alerts s' = alerts s @ (if is_anomaly r' then [new_alert r'] else []) \<and>
      (alert_type (new_alert r'), severity (new_alert r')) \<noteq> (AT_EQUIPMENT_FAULT, CRITICAL)"
    if run: "create_reading e tick hs sc timestamp s = (Inr r', s')"
  proof -
    from create_reading_Inr [OF run] obtain r0 where r': "r' = save r0"
      and al: "alerts s' = alerts s @ (if is_anomaly r' then [new_alert r'] else [])"
      by blast
    show ?thesis
      using al save_status [of r0] determine_alert_type_equipment_critical [OF saved [of r0]]
      by (simp add: r')
  qed
  then show ?thesis
    using save_status [of r] determine_alert_type_equipment_critical [OF saved [of r]]
      equipment_fault_expected generate_equipment_fault_expected
    by blast
qed

theorem equipment_fault_never_assigned_witness:
  "\<exists>r' s' rd.
     generate_reading quiet_env 0 example_house (Some ''equipment_fault'') = Inr rd \<and>
     rd_expected_status rd = EQUIPMENT_FAULT \<and>
     create_reading quiet_env 0 example_house (Some ''equipment_fault'') None example_store =
       (Inr r', s') \<and>
     status r' \<noteq> EQUIPMENT_FAULT"
proof -
  have ok: "output_voltage (h_transformer example_house) \<noteq> 0"
    by (simp add: example_house_fields)
  obtain rd where rd: "generate_reading quiet_env 0 example_house (Some ''equipment_fault'') = Inr rd"
    using generate_reading_ok [OF ok] by blast
  have "\<not> isl (fst (create_reading quiet_env 0 example_house (Some ''equipment_fault'') None
                      example_store))"
    using ok by (rule create_reading_not_rejected)
  then obtain r' s' where run:
    "create_reading quiet_env 0 example_house (Some ''equipment_fault'') None example_store =
       (Inr r', s')"
    by (metis isl_def old.sum.exhaust prod.collapse)
  show ?thesis
    using equipment_fault_never_assigned
      [where e = quiet_env and tick = 0 and hs = example_house and rd = rd
         and sc = "Some ''equipment_fault''" and timestamp = None and s = example_store
         and r' = r' and s' = s']
      rd run
    by auto
qed
subsection \<open>Historical backfill\<close>

lemma create_reading_ok:
  assumes "output_voltage (h_transformer hs) \<noteq> 0"
    and "\<not> reading_insert_fails e tick" and "\<not> alert_creation_fails e tick"
  shows "\<exists>r s'. create_reading e tick hs sc timestamp s = (Inr r, s') \<and> house r = hs \<and>
           reading_timestamp r = (case timestamp of None \<Rightarrow> now_at e tick | Some t \<Rightarrow> t) \<and>
           readings s' = readings s @ [r]"
proof -
  obtain rd where rd: "generate_reading e tick hs sc = Inr rd" "rd_house rd = hs"
    using generate_reading_ok [OF assms(1)] by blast
  show ?thesis
    unfolding create_reading_eq using rd assms(2,3) by (simp add: Let_def)
qed

lemma houses_loop_ok:
  assumes "\<forall>hs \<in> set hss. output_voltage (h_transformer hs) \<noteq> 0"
    and "\<forall>t. \<not> reading_insert_fails e t" and "\<forall>t. \<not> alert_creation_fails e t"
  shows "\<exists>rs s'. houses_loop e tick (Some ts) hss acc s = (Inr (acc @ rs), s') \<and>
           readings s' = readings s @ rs \<and> length rs = length hss \<and>
           (\<forall>j < length hss. house (rs ! j) = hss ! j \<and> reading_timestamp (rs ! j) = ts)"
  using assms(1)
proof (induction hss arbitrary: tick acc s)
  case Nil
  show ?case by simp
next
  case (Cons hs hss)
  from Cons.prems have "output_voltage (h_transformer hs) \<noteq> 0" by simp
  then obtain r s1 where step: "create_reading e tick hs None (Some ts) s = (Inr r, s1)"
    and r: "house r = hs" "reading_timestamp r = ts" and st1: "readings s1 = readings s @ [r]"
    using create_reading_ok [of hs e tick None "Some ts" s] assms(2,3) by auto
  from Cons.prems have "\<forall>hs \<in> set hss. output_voltage (h_transformer hs) \<noteq> 0" by simp
  from Cons.IH [OF this, of "Suc tick" "acc @ [r]" s1]
  obtain rs s' where rest: "houses_loop e (Suc tick) (Some ts) hss (acc @ [r]) s1 =
      (Inr ((acc @ [r]) @ rs), s')"
    and st: "readings s' = readings s1 @ rs"
    and len: "length rs = length hss"
    and nth: "\<forall>j < length hss. house (rs ! j) = hss ! j \<and> reading_timestamp (rs ! j) = ts"
    by blast
  have "houses_loop e tick (Some ts) (hs # hss) acc s = (Inr (acc @ (r # rs)), s')"
    using step rest by simp
  moreover have "readings s' = readings s @ (r # rs)"
    using st st1 by simp
  moreover have "length (r # rs) = length (hs # hss)"
    using len by simp
  moreover have "\<forall>j < length (hs # hss).
      house ((r # rs) ! j) = (hs # hss) ! j \<and> reading_timestamp ((r # rs) ! j) = ts"
    using r nth by (auto simp: nth_Cons split: nat.splits)
  ultimately show ?case by blast
qed

lemma hours_loop_ok:
  assumes "\<forall>hs \<in> set hss. output_voltage (h_transformer hs) \<noteq> 0"
    and "\<forall>t. \<not> reading_insert_fails e t" and "\<forall>t. \<not> alert_creation_fails e t"
  shows "\<exists>rs s'. hours_loop e tick now H hl hss acc s = (Inr (acc @ rs), s') \<and>
           readings s' = readings s @ rs \<and> length rs = length hl * length hss \<and>
           (\<forall>i < length hl. \<forall>j < length hss.
              house (rs ! (i * length hss + j)) = hss ! j \<and>
              reading_timestamp (rs ! (i * length hss + j)) =
                now - timedelta_hours (H - hl ! i))"
proof (induction hl arbitrary: tick acc s)
  case Nil
  show ?case by simp
next
  case (Cons hour hl)
  let ?ts = "now - timedelta_hours (H - hour)"
  let ?n = "length hss"
  from houses_loop_ok [OF assms, of tick ?ts acc s]
  obtain rs1 s1 where first: "houses_loop e tick (Some ?ts) hss acc s = (Inr (acc @ rs1), s1)"
    and st1: "readings s1 = readings s @ rs1"
    and len1: "length rs1 = ?n"
    and nth1: "\<forall>j < ?n. house (rs1 ! j) = hss ! j \<and> reading_timestamp (rs1 ! j) = ?ts"
    by blast
  from Cons.IH [of "tick + ?n" "acc @ rs1" s1]
  obtain rs2 s2 where rest: "hours_loop e (tick + ?n) now H hl hss (acc @ rs1) s1 =
      (Inr ((acc @ rs1) @ rs2), s2)"
    and st2: "readings s2 = readings s1 @ rs2"
    and len2: "length rs2 = length hl * ?n"
    and nth2: "\<forall>i < length hl. \<forall>j < ?n.
              house (rs2 ! (i * ?n + j)) = hss ! j \<and>
              reading_timestamp (rs2 ! (i * ?n + j)) = now - timedelta_hours (H - hl ! i)"
    by blast
  have run: "hours_loop e tick now H (hour # hl) hss acc s = (Inr (acc @ (rs1 @ rs2)), s2)"
    using first rest by (simp add: Let_def)
  have len: "length (rs1 @ rs2) = length (hour # hl) * ?n"
    using len1 len2 by simp
  have nth: "house ((rs1 @ rs2) ! (i * ?n + j)) = hss ! j \<and>
             reading_timestamp ((rs1 @ rs2) ! (i * ?n + j)) =
               now - timedelta_hours (H - (hour # hl) ! i)"
    if i: "i < length (hour # hl)" and j: "j < ?n" for i j
  proof (cases i)
    case 0
    then show ?thesis
      using nth1 j len1 by (simp add: nth_append)
  next
    case (Suc i')
    have idx: "(rs1 @ rs2) ! (Suc i' * ?n + j) = rs2 ! (i' * ?n + j)"
      using nth_append_length_plus [of rs1 rs2 "i' * ?n + j"] len1
      by (simp add: add.assoc)
    show ?thesis
      using nth2 i j Suc idx by simp
  qed
  have "readings s2 = readings s @ (rs1 @ rs2)"
    using st1 st2 by simp
  then show ?case
    using run len nth by blast
qed

lemma py_range_nth: "length (py_range H) = nat H" "i < nat H \<Longrightarrow> py_range H ! i = int i"
  by (simp_all add: py_range_def)

lemma timedelta_hours_step:
  "now - timedelta_hours (H - int (Suc hour)) = now - timedelta_hours (H - int hour) + timedelta_hours 1"
  "now - timedelta_hours (H - int hour) < now - timedelta_hours (H - int (Suc hour))"
  by (simp_all add: timedelta_hours_def algebra_simps)

text \<open>
  C5. When no tick raises (no house of the set has a transformer with output voltage
  zero, and no row write fails), the backfill over \<open>H\<close> hours and the \<open>N\<close> houses of
  the set, the given ones or else the eligible ones, returns \<open>H \<times> N\<close> readings (none
  when \<open>H\<close> is negative), which are the readings it added to the store. The reading of
  house \<open>j\<close> in hour \<open>hour\<close> is at position \<open>hour \<times> N + j\<close> and carries the
  timestamp now minus \<open>H - hour\<close> hours; so from one hour to the next the timestamp of
  a house grows by exactly one hour.
\<close>

theorem historical_backfill:
  assumes "hss = (case houses_arg of None \<Rightarrow> eligible_houses s | Some l \<Rightarrow> l)"
    and "\<forall>hs \<in> set hss. output_voltage (h_transformer hs) \<noteq> 0"
    and "\<forall>t. \<not> reading_insert_fails e t" and "\<forall>t. \<not> alert_creation_fails e t"
  shows "\<exists>rs s'. simulate_historical_data e tick H houses_arg s = (Inr rs, s') \<and>
           readings s' = readings s @ rs \<and>
           length rs = nat H * length hss \<and>
           (\<forall>hour < nat H. \<forall>j < length hss.
              house (rs ! (hour * length hss + j)) = hss ! j \<and>
              reading_timestamp (rs ! (hour * length hss + j)) =
                now_at e tick - timedelta_hours (H - int hour) \<and>
              (Suc hour < nat H \<longrightarrow>
                 reading_timestamp (rs ! (Suc hour * length hss + j)) =
                   reading_timestamp (rs ! (hour * length hss + j)) + timedelta_hours 1 \<and>
                 reading_timestamp (rs ! (hour * length hss + j)) <
                   reading_timestamp (rs ! (Suc hour * length hss + j))))"
proof -
  from hours_loop_ok [OF assms(2,3,4), of tick "now_at e tick" H "py_range H" "[]" s]
  obtain rs s' where run: "hours_loop e tick (now_at e tick) H (py_range H) hss [] s = (Inr rs, s')"
    and st: "readings s' = readings s @ rs"
    and len: "length rs = nat H * length hss"
    and nth: "\<forall>i < nat H. \<forall>j < length hss.
              house (rs ! (i * length hss + j)) = hss ! j \<and>
              reading_timestamp (rs ! (i * length hss + j)) =
                now_at e tick - timedelta_hours (H - py_range H ! i)"
    by (auto simp: py_range_nth(1))
  have stamp: "house (rs ! (hour * length hss + j)) = hss ! j \<and>
      reading_timestamp (rs ! (hour * length hss + j)) =
        now_at e tick - timedelta_hours (H - int hour)"
    if "hour < nat H" "j < length hss" for hour j
    using nth that by (simp add: py_range_nth(2))
  have "simulate_historical_data e tick H houses_arg s = (Inr rs, s')"
    using run assms(1) by (simp add: simulate_historical_data_def Let_def)
  moreover have "\<forall>hour < nat H. \<forall>j < length hss.
              house (rs ! (hour * length hss + j)) = hss ! j \<and>
              reading_timestamp (rs ! (hour * length hss + j)) =
                now_at e tick - timedelta_hours (H - int hour) \<and>
              (Suc hour < nat H \<longrightarrow>
                 reading_timestamp (rs ! (Suc hour * length hss + j)) =
                   reading_timestamp (rs ! (hour * length hss + j)) + timedelta_hours 1 \<and>
                 reading_timestamp (rs ! (hour * length hss + j)) <
                   reading_timestamp (rs ! (Suc hour * length hss + j)))"
  proof (intro allI impI)
    fix hour j
    assume hj: "hour < nat H" "j < length hss"
    show "house (rs ! (hour * length hss + j)) = hss ! j \<and>
              reading_timestamp (rs ! (hour * length hss + j)) =
                now_at e tick - timedelta_hours (H - int hour) \<and>
              (Suc hour < nat H \<longrightarrow>
                 reading_timestamp (rs ! (Suc hour * length hss + j)) =
                   reading_timestamp (rs ! (hour * length hss + j)) + timedelta_hours 1 \<and>
                 reading_timestamp (rs ! (hour * length hss + j)) <
                   reading_timestamp (rs ! (Suc hour * length hss + j)))"
      using stamp [OF hj] stamp [of "Suc hour" j] hj(2)
        timedelta_hours_step [of "now_at e tick" H hour]
      by (simp del: mult_Suc)
  qed
  ultimately show ?thesis
    using st len by blast
qed

lemma quiet_env_now: "now_at quiet_env tick = 1000000 + int tick"
  by (simp add: quiet_env_def)

theorem historical_backfill_witness:
  "\<exists>rs s'. simulate_historical_data quiet_env 0 3 (Some [example_house, reversed_house])
              example_store = (Inr rs, s') \<and>
     readings s' = rs \<and> length rs = 6 \<and>
     house (rs ! 0) = example_house \<and> reading_timestamp (rs ! 0) = 1000000 - 10800000000 \<and>
     house (rs ! 5) = reversed_house \<and> reading_timestamp (rs ! 5) = 1000000 - 3600000000"
proof -
  have cfg: "\<forall>hs \<in> set [example_house, reversed_house]. output_voltage (h_transformer hs) \<noteq> 0"
    by (simp add: example_house_fields reversed_house_def reversed_transformer_def)
  from historical_backfill [where hss = "[example_house, reversed_house]"
      and houses_arg = "Some [example_house, reversed_house]" and s = example_store
      and e = quiet_env and tick = 0 and H = 3, OF _ cfg]
  obtain rs s' where run: "simulate_historical_data quiet_env 0 3
        (Some [example_house, reversed_house]) example_store = (Inr rs, s')"
    and st: "readings s' = readings example_store @ rs"
    and len: "length rs = nat 3 * length [example_house, reversed_house]"
    and nth: "\<forall>hour < nat 3. \<forall>j < length [example_house, reversed_house].
              house (rs ! (hour * length [example_house, reversed_house] + j)) =
                [example_house, reversed_house] ! j \<and>
              reading_timestamp (rs ! (hour * length [example_house, reversed_house] + j)) =
                now_at quiet_env 0 - timedelta_hours (3 - int hour)"
    by (auto simp: quiet_env_fields)
  have "house (rs ! 0) = example_house \<and> reading_timestamp (rs ! 0) = 1000000 - 10800000000"
    using nth [rule_format, of 0 0] by (simp add: quiet_env_now timedelta_hours_def)
  moreover have "house (rs ! 5) = reversed_house \<and>
      reading_timestamp (rs ! 5) = 1000000 - 3600000000"
    using nth [rule_format, of 2 1] by (simp add: quiet_env_now timedelta_hours_def)
  ultimately show ?thesis
    using run st len by (simp add: example_store_def)
qed

end
